theory Spec2Isabelle
  imports Complex_Main "HOL-Library.Sublist" "HOL-Library.Word" "HOL-Library.Multiset"
    "HOL-Library.Char_ord" "HOL-Library.List_Lexorder"
begin

unbundle bit_operations_syntax

section \<open>Python strings and slices\<close>

text \<open>
  A Python \<open>str\<close> is modelled as a \<^typ>\<open>string\<close>: a list of characters, one
  \<^typ>\<open>char\<close> per code point below 256. \<open>len\<close> is \<^const>\<open>length\<close>.
\<close>

definition isspace :: "char \<Rightarrow> bool" where
  \<comment> \<open>\<open>str.isspace\<close> on one character: TAB..CR, FS..US, space, NEL, NBSP.\<close>
  "isspace c =
     (let n = (of_char c :: nat)
      in (9 \<le> n \<and> n \<le> 13) \<or> (28 \<le> n \<and> n \<le> 32) \<or> n = 133 \<or> n = 160)"

definition strip :: "string \<Rightarrow> string" where
  \<comment> \<open>\<open>str.strip()\<close>: leading and trailing whitespace removed.\<close>
  "strip s = rev (dropWhile isspace (rev (dropWhile isspace s)))"

definition lower_char :: "char \<Rightarrow> char" where
  \<comment> \<open>\<open>str.lower\<close> on one character: A..Z and the Latin-1 capitals have a lower-case form.\<close>
  "lower_char c =
     (let n = (of_char c :: nat)
      in if (65 \<le> n \<and> n \<le> 90) \<or> (192 \<le> n \<and> n \<le> 222 \<and> n \<noteq> 215)
         then char_of (n + 32) else c)"

definition lower :: "string \<Rightarrow> string" where
  "lower s = map lower_char s"

definition py_slice :: "'a list \<Rightarrow> int \<Rightarrow> int \<Rightarrow> 'a list" where
  \<comment> \<open>\<open>xs[start:stop]\<close>: a negative index counts from the end, both are clamped.\<close>
  "py_slice xs start stop =
     (let n = int (length xs);
          lo = (if start < 0 then max (start + n) 0 else min start n);
          hi = (if stop < 0 then max (stop + n) 0 else min stop n)
      in if lo < hi then take (nat (hi - lo)) (drop (nat lo) xs) else [])"

definition trimmed :: "string \<Rightarrow> bool" where
  "trimmed s = (s = [] \<or> (\<not> isspace (hd s) \<and> \<not> isspace (last s)))"

section \<open>The chunker (document_processor_simple.py, \<open>_chunk_text\<close>)\<close>

text \<open>
  The \<open>while start < text_length\<close> loop, with the list \<open>chunks\<close> as accumulator.
  The loop does not return when \<open>chunk_size - overlap \<le> 0\<close> on a non-empty text;
  the value \<open>None\<close> stands for that.
\<close>

partial_function (option) chunk_loop ::
  "string \<Rightarrow> int \<Rightarrow> int \<Rightarrow> int \<Rightarrow> string list \<Rightarrow> string list option" where
  "chunk_loop text chunk_size overlap start chunks =
     (if start < int (length text)
      then chunk_loop text chunk_size overlap (start + (chunk_size - overlap))
             (chunks @ [strip (py_slice text start (start + chunk_size))])
      else Some chunks)"

declare chunk_loop.simps [code]

definition chunk_text :: "string \<Rightarrow> int \<Rightarrow> int \<Rightarrow> string list option" where
  "chunk_text text chunk_size overlap = chunk_loop text chunk_size overlap 0 []"

definition window :: "string \<Rightarrow> int \<Rightarrow> int \<Rightarrow> nat \<Rightarrow> string" where
  \<comment> \<open>The untrimmed text of step \<open>k\<close>: \<open>text[start:end]\<close> with \<open>start = k * (chunk_size - overlap)\<close>.\<close>
  "window text chunk_size overlap k =
     py_slice text (int k * (chunk_size - overlap)) (int k * (chunk_size - overlap) + chunk_size)"

definition spec_chunk_count :: "int \<Rightarrow> int \<Rightarrow> int \<Rightarrow> int" where
  \<comment> \<open>The count the specification states: \<open>ceil((L - O) / (C - O))\<close>.\<close>
  "spec_chunk_count len chunk_size overlap =
     \<lceil>real_of_int (len - overlap) / real_of_int (chunk_size - overlap)\<rceil>"

definition page_chunks :: "string \<Rightarrow> string list option" where
  \<comment> \<open>One page of \<open>_extract_and_chunk_pdf\<close>: a page whose text strips to nothing is
      skipped, any other is chunked with \<open>chunk_size=1000, overlap=200\<close>.\<close>
  "page_chunks text = (if strip text \<noteq> [] then chunk_text text 1000 200 else Some [])"

section \<open>\<open>str.encode()\<close> and \<open>hashlib.md5(...).hexdigest()\<close>\<close>

type_synonym byte = "8 word"

definition encode :: "string \<Rightarrow> byte list" where
  \<comment> \<open>UTF-8: one byte below 128, two bytes for the code points 128..255.\<close>
  "encode s =
     concat (map (\<lambda>c. let n = (of_char c :: nat)
                       in if n < 128 then [of_nat n]
                          else [of_nat (192 + n div 64), of_nat (128 + n mod 64)]) s)"

definition md5_K :: "32 word list" where
  "md5_K =
     [0xd76aa478, 0xe8c7b756, 0x242070db, 0xc1bdceee, 0xf57c0faf, 0x4787c62a, 0xa8304613, 0xfd469501,
      0x698098d8, 0x8b44f7af, 0xffff5bb1, 0x895cd7be, 0x6b901122, 0xfd987193, 0xa679438e, 0x49b40821,
      0xf61e2562, 0xc040b340, 0x265e5a51, 0xe9b6c7aa, 0xd62f105d, 0x02441453, 0xd8a1e681, 0xe7d3fbc8,
      0x21e1cde6, 0xc33707d6, 0xf4d50d87, 0x455a14ed, 0xa9e3e905, 0xfcefa3f8, 0x676f02d9, 0x8d2a4c8a,
      0xfffa3942, 0x8771f681, 0x6d9d6122, 0xfde5380c, 0xa4beea44, 0x4bdecfa9, 0xf6bb4b60, 0xbebfbc70,
      0x289b7ec6, 0xeaa127fa, 0xd4ef3085, 0x04881d05, 0xd9d4d039, 0xe6db99e5, 0x1fa27cf8, 0xc4ac5665,
      0xf4292244, 0x432aff97, 0xab9423a7, 0xfc93a039, 0x655b59c3, 0x8f0ccc92, 0xffeff47d, 0x85845dd1,
      0x6fa87e4f, 0xfe2ce6e0, 0xa3014314, 0x4e0811a1, 0xf7537e82, 0xbd3af235, 0x2ad7d2bb, 0xeb86d391]"

definition md5_s :: "nat list" where
  "md5_s =
     [7, 12, 17, 22, 7, 12, 17, 22, 7, 12, 17, 22, 7, 12, 17, 22,
      5, 9, 14, 20, 5, 9, 14, 20, 5, 9, 14, 20, 5, 9, 14, 20,
      4, 11, 16, 23, 4, 11, 16, 23, 4, 11, 16, 23, 4, 11, 16, 23,
      6, 10, 15, 21, 6, 10, 15, 21, 6, 10, 15, 21, 6, 10, 15, 21]"

type_synonym md5_state = "32 word \<times> 32 word \<times> 32 word \<times> 32 word"

definition le_word :: "byte list \<Rightarrow> 32 word" where
  \<comment> \<open>Four bytes, least significant first.\<close>
  "le_word bs = foldr (\<lambda>b w. ucast b OR push_bit 8 w) bs 0"

definition le_bytes :: "32 word \<Rightarrow> byte list" where
  "le_bytes w = [ucast w, ucast (drop_bit 8 w), ucast (drop_bit 16 w), ucast (drop_bit 24 w)]"

definition md5_step :: "32 word list \<Rightarrow> nat \<Rightarrow> md5_state \<Rightarrow> md5_state" where
  "md5_step M i st =
     (case st of (a, b, c, d) \<Rightarrow>
        let (f, g) =
              (if i < 16 then ((b AND c) OR (NOT b AND d), i)
               else if i < 32 then ((d AND b) OR (NOT d AND c), (5 * i + 1) mod 16)
               else if i < 48 then (b XOR c XOR d, (3 * i + 5) mod 16)
               else (c XOR (b OR NOT d), (7 * i) mod 16));
            f' = f + a + md5_K ! i + M ! g
        in (d, b + word_rotl (md5_s ! i) f', b, c))"

definition md5_block :: "byte list \<Rightarrow> md5_state \<Rightarrow> md5_state" where
  "md5_block block st =
     (case st of (a0, b0, c0, d0) \<Rightarrow>
        let M = map (\<lambda>j. le_word (take 4 (drop (4 * j) block))) [0..<16]
        in case fold (md5_step M) [0..<64] st of
             (a, b, c, d) \<Rightarrow> (a0 + a, b0 + b, c0 + c, d0 + d))"

fun le_bytes_nat :: "nat \<Rightarrow> nat \<Rightarrow> byte list" where
  \<comment> \<open>The \<open>k\<close> low bytes of \<open>n\<close>, least significant first.\<close>
  "le_bytes_nat 0 n = []"
| "le_bytes_nat (Suc k) n = of_nat (n mod 256) # le_bytes_nat k (n div 256)"

definition md5_pad :: "byte list \<Rightarrow> byte list" where
  \<comment> \<open>The bit 1, zeros up to 56 modulo 64, the bit length as 8 bytes, least significant first.\<close>
  "md5_pad msg =
     msg @ [0x80] @ replicate ((119 - length msg mod 64) mod 64) 0 @
     le_bytes_nat 8 (8 * length msg)"

function chop64 :: "byte list \<Rightarrow> byte list list" where
  "chop64 bs = (if bs = [] then [] else take 64 bs # chop64 (drop 64 bs))"
  by pat_completeness auto
termination
  by (relation "measure length") auto

declare chop64.simps [simp del]

definition md5_digest :: "byte list \<Rightarrow> byte list" where
  "md5_digest msg =
     (case fold md5_block (chop64 (md5_pad msg)) (0x67452301, 0xefcdab89, 0x98badcfe, 0x10325476) of
        (a, b, c, d) \<Rightarrow> le_bytes a @ le_bytes b @ le_bytes c @ le_bytes d)"

definition hex_digit :: "nat \<Rightarrow> char" where
  "hex_digit n = ''0123456789abcdef'' ! (n mod 16)"

definition hexdigest :: "byte list \<Rightarrow> string" where
  "hexdigest ds = concat (map (\<lambda>b. [hex_digit (unat b div 16), hex_digit (unat b mod 16)]) ds)"

definition md5_hexdigest :: "byte list \<Rightarrow> string" where
  \<comment> \<open>\<open>hashlib.md5(data).hexdigest()\<close>\<close>
  "md5_hexdigest msg = hexdigest (md5_digest msg)"

section \<open>\<open>json.dumps(..., sort_keys=True)\<close>\<close>

text \<open>
  JSON values as Python holds them; a \<open>dict\<close> is its list of items in insertion order,
  with distinct keys. Numbers are integers.
\<close>

datatype json = JNull | JBool bool | JInt int | JStr string | JList "json list"
  | JDict "(string \<times> json) list"

fun str_of_nat :: "nat \<Rightarrow> string" where
  "str_of_nat n =
     (if n < 10 then [hex_digit n] else str_of_nat (n div 10) @ [hex_digit (n mod 10)])"

declare str_of_nat.simps [simp del]

definition str_of_int :: "int \<Rightarrow> string" where
  "str_of_int i = (if i < 0 then CHR ''-'' # str_of_nat (nat (- i)) else str_of_nat (nat i))"

definition escape_char :: "char \<Rightarrow> string" where
  \<comment> \<open>The escapes of \<open>ensure_ascii=True\<close>: everything outside space..tilde is escaped.\<close>
  "escape_char c =
     (let n = (of_char c :: nat)
      in if n = 34 then [CHR 0x5C, CHR 0x22]
         else if n = 92 then [CHR 0x5C, CHR 0x5C]
         else if n = 10 then [CHR 0x5C, CHR ''n'']
         else if n = 13 then [CHR 0x5C, CHR ''r'']
         else if n = 9 then [CHR 0x5C, CHR ''t'']
         else if n = 8 then [CHR 0x5C, CHR ''b'']
         else if n = 12 then [CHR 0x5C, CHR ''f'']
         else if 32 \<le> n \<and> n \<le> 126 then [c]
         else [CHR 0x5C, CHR ''u'', CHR ''0'', CHR ''0'', hex_digit (n div 16), hex_digit (n mod 16)])"

definition encode_basestring_ascii :: "string \<Rightarrow> string" where
  "encode_basestring_ascii s = [CHR 0x22] @ concat (map escape_char s) @ [CHR 0x22]"

fun join :: "string \<Rightarrow> string list \<Rightarrow> string" where
  \<comment> \<open>\<open>sep.join(parts)\<close>\<close>
  "join sep [] = []"
| "join sep [x] = x"
| "join sep (x # y # ys) = x @ sep @ join sep (y # ys)"

definition dumps_items :: "(string \<times> string) list \<Rightarrow> string" where
  \<comment> \<open>The items of a dict, values already serialised: sorted by key, \<open>"key": value\<close>,
      joined by a comma and a space.\<close>
  "dumps_items kvs =
     join '', '' (map (\<lambda>kv. encode_basestring_ascii (fst kv) @ '': '' @ snd kv) (sort_key fst kvs))"

fun json_dumps :: "json \<Rightarrow> string" where
  "json_dumps JNull = ''null''"
| "json_dumps (JBool b) = (if b then ''true'' else ''false'')"
| "json_dumps (JInt i) = str_of_int i"
| "json_dumps (JStr s) = encode_basestring_ascii s"
| "json_dumps (JList xs) = ''['' @ join '', '' (map json_dumps xs) @ '']''"
| "json_dumps (JDict kvs) =
     ''{'' @ dumps_items (map (\<lambda>kv. (fst kv, json_dumps (snd kv))) kvs) @ ''}''"

section \<open>The query cache (main.py)\<close>

definition get_query_hash :: "string \<Rightarrow> (string \<times> json) list option \<Rightarrow> string" where
  \<comment> \<open>\<open>if filters:\<close> is false for \<open>None\<close> and for the empty dict.\<close>
  "get_query_hash query filters =
     (let cache_key = strip (lower query);
          cache_key = (case filters of
                         None \<Rightarrow> cache_key
                       | Some f \<Rightarrow> if f \<noteq> [] then cache_key @ json_dumps (JDict f) else cache_key)
      in md5_hexdigest (encode cache_key))"

definition spec_canonical_filters :: "(string \<times> json) list \<Rightarrow> string" where
  \<comment> \<open>The canonical serialisation the specification names: the items of the filter set
      put in the order of their keys, then written as a JSON object.\<close>
  "spec_canonical_filters f =
     ''{'' @ join '', '' (map (\<lambda>kv. encode_basestring_ascii (fst kv) @ '': '' @ json_dumps (snd kv))
                              (sort_key fst f)) @ ''}''"

definition spec_fingerprint :: "string \<Rightarrow> (string \<times> json) list option \<Rightarrow> string" where
  \<comment> \<open>The fingerprint as the specification words it: lower-case and trim the query, append
      the canonical serialisation of the filters when there are any, hash the result.\<close>
  "spec_fingerprint query filters =
     md5_hexdigest
       (encode (strip (lower query) @
                (case filters of
                   None \<Rightarrow> []
                 | Some f \<Rightarrow> if f = [] then [] else spec_canonical_filters f)))"

definition CACHE_TTL_SECONDS :: int where
  "CACHE_TTL_SECONDS = 3600"

text \<open>
  A \<open>datetime\<close> is a count of microseconds; a \<open>timedelta\<close> is their difference, and
  \<open>total_seconds()\<close> divides it by \<open>10^6\<close>. The key \<open>timestamp\<close> of a cache entry holds
  \<open>datetime.now().isoformat()\<close>, which \<open>datetime.fromisoformat\<close> reads back; \<open>None\<close> stands
  for a missing or unreadable timestamp, on which \<open>is_cache_valid\<close> returns \<open>False\<close>.
\<close>

definition total_seconds :: "int \<Rightarrow> real" where
  "total_seconds delta = real_of_int delta / 1000000"

definition is_cache_valid :: "int \<Rightarrow> int option \<Rightarrow> bool" where
  "is_cache_valid now timestamp =
     (case timestamp of
        None \<Rightarrow> False
      | Some cached_time \<Rightarrow>
          (let age = total_seconds (now - cached_time) in age < real_of_int CACHE_TTL_SECONDS))"

text \<open>The dictionary returned by \<open>process_query\<close>, read with \<open>result.get(key)\<close>.\<close>

record pipeline_result =
  r_answer :: "string option"
  r_sources :: "json list option"
  r_confidence :: "string option"
  r_structured_data :: "json option"
  r_conversation_id :: "string option"

record cache_entry =
  c_answer :: "string option"
  c_sources :: "json list option"
  c_confidence :: "string option"
  c_structured_data :: "json option"
  c_timestamp :: "int option"

type_synonym query_cache = "string \<rightharpoonup> cache_entry"

record chat_request =
  req_message :: string
  req_conversation_id :: "string option"
  req_filters :: "(string \<times> json) list option"

record chat_response =
  resp_answer :: string
  resp_sources :: "json list"
  resp_conversation_id :: "string option"
  resp_confidence :: "string option"

text \<open>
  The handler raises \<open>HTTPException(status_code=500, detail=f"Error processing query: {str(e)}")\<close>
  for every exception \<open>e\<close>. The detail is kept in full for an exception of the pipeline,
  whose text is part of the outcome; for the exceptions raised inside the handler
  (a failed validation of the response, \<open>len\<close> of \<open>None\<close>, \<open>get\<close> on a source that is
  not a dict) only the fixed prefix is kept.
\<close>

datatype http_error = HTTP_500 string

definition ChatResponse ::
  "string option \<Rightarrow> json list option \<Rightarrow> string option \<Rightarrow> string option \<Rightarrow> http_error + chat_response" where
  \<comment> \<open>The model requires \<open>answer: str\<close> and \<open>sources: List\<close>; a failed validation is an
      exception, which the handler of \<open>chat\<close> turns into status 500.\<close>
  "ChatResponse a s cid conf =
     (case (a, s) of
        (Some a', Some s') \<Rightarrow>
          Inr \<lparr>resp_answer = a', resp_sources = s', resp_conversation_id = cid,
               resp_confidence = conf\<rparr>
      | _ \<Rightarrow> Inl (HTTP_500 ''Error processing query''))"

definition cache_lookup :: "int \<Rightarrow> query_cache \<Rightarrow> string \<Rightarrow> cache_entry option" where
  \<comment> \<open>\<open>query_hash in query_cache and is_cache_valid(query_cache[query_hash].get("timestamp", ""))\<close>\<close>
  "cache_lookup now qc query_hash =
     (case qc query_hash of
        None \<Rightarrow> None
      | Some cached_result \<Rightarrow>
          if is_cache_valid now (c_timestamp cached_result) then Some cached_result else None)"

definition cache_entry_of :: "pipeline_result \<Rightarrow> int \<Rightarrow> cache_entry" where
  "cache_entry_of result now =
     \<lparr>c_answer = r_answer result, c_sources = r_sources result,
      c_confidence = r_confidence result, c_structured_data = r_structured_data result,
      c_timestamp = Some now\<rparr>"

definition cache_put :: "query_cache \<Rightarrow> string \<Rightarrow> pipeline_result \<Rightarrow> int \<Rightarrow> query_cache" where
  \<comment> \<open>\<open>query_cache[query_hash] = {...}\<close>\<close>
  "cache_put qc query_hash result now = qc(query_hash \<mapsto> cache_entry_of result now)"

definition clear_cache :: "query_cache \<Rightarrow> query_cache" where
  \<comment> \<open>\<open>query_cache.clear()\<close>\<close>
  "clear_cache qc = Map.empty"

definition is_json_dict :: "json \<Rightarrow> bool" where
  "is_json_dict v = (case v of JDict kvs \<Rightarrow> True | _ \<Rightarrow> False)"

definition chat ::
  "int \<Rightarrow> int \<Rightarrow> string + pipeline_result \<Rightarrow> chat_request \<Rightarrow> query_cache \<Rightarrow>
     (http_error + chat_response) \<times> query_cache" where
  \<comment> \<open>The handler of \<open>/chat\<close> after the token check. \<open>now_check\<close> and \<open>now_store\<close> are the
      two readings of the clock; \<open>outcome\<close> is what \<open>rag_pipeline.process_query\<close> does when
      it is called: \<open>Inl\<close> an exception, \<open>Inr\<close> its result. Before the cache is written,
      \<open>len(result.get("sources", []))\<close> raises on \<open>None\<close> (a result whose \<open>r_sources\<close> is
      \<open>None\<close> holds \<open>"sources": None\<close>) and \<open>source.get\<close> raises on a source that is not a
      dict; the handler turns every exception into status 500.\<close>
  "chat now_check now_store outcome request qc =
     (let query_hash = get_query_hash (req_message request) (req_filters request)
      in case cache_lookup now_check qc query_hash of
           Some cached_result \<Rightarrow>
             (ChatResponse (c_answer cached_result) (c_sources cached_result) None
                (c_confidence cached_result), qc)
         | None \<Rightarrow>
             (case outcome of
                Inl e \<Rightarrow> (Inl (HTTP_500 (''Error processing query: '' @ e)), qc)
              | Inr result \<Rightarrow>
                  (case r_sources result of
                     None \<Rightarrow> (Inl (HTTP_500 ''Error processing query''), qc)
                   | Some srcs \<Rightarrow>
                       if list_all is_json_dict srcs
                       then (ChatResponse (r_answer result) (r_sources result)
                               (r_conversation_id result) (r_confidence result),
                             cache_put qc query_hash result now_store)
                       else (Inl (HTTP_500 ''Error processing query''), qc))))"

definition example_entry :: cache_entry where
  \<comment> \<open>An entry stored at time 0.\<close>
  "example_entry =
     \<lparr>c_answer = Some ''1 HR'', c_sources = Some [], c_confidence = Some ''high'',
      c_structured_data = None, c_timestamp = Some 0\<rparr>"

definition example_cache :: query_cache where
  "example_cache = [''k'' \<mapsto> example_entry]"

definition example_request :: chat_request where
  "example_request = \<lparr>req_message = ''What is the fire rating?'', req_conversation_id = None,
      req_filters = None\<rparr>"

section \<open>Keyword search (document_processor_simple.py, \<open>search_documents\<close>)\<close>

record chunk =
  chunk_id :: string
  document_id :: string
  filename :: string
  page_number :: nat
  chunk_index :: nat
  content :: string

text \<open>A search result is the chunk's dictionary with the key \<open>relevance_score\<close> added.\<close>

record scored_chunk = chunk +
  relevance_score :: int

definition with_score :: "chunk \<Rightarrow> int \<Rightarrow> scored_chunk" where
  \<comment> \<open>\<open>{**chunk, "relevance_score": score}\<close>\<close>
  "with_score c score = chunk.extend c (scored_chunk.fields score)"

fun split_acc :: "string \<Rightarrow> string \<Rightarrow> string list" where
  "split_acc cur [] = (if cur = [] then [] else [cur])"
| "split_acc cur (c # cs) =
     (if isspace c then (if cur = [] then split_acc [] cs else cur # split_acc [] cs)
      else split_acc (cur @ [c]) cs)"

definition py_split :: "string \<Rightarrow> string list" where
  \<comment> \<open>\<open>str.split()\<close>: the maximal runs of non-whitespace characters.\<close>
  "py_split s = split_acc [] s"

fun str_in :: "string \<Rightarrow> string \<Rightarrow> bool" where
  \<comment> \<open>\<open>word in s\<close>: \<open>word\<close> occurs in \<open>s\<close> as a substring.\<close>
  "str_in w [] = (w = [])"
| "str_in w (c # cs) = (prefix w (c # cs) \<or> str_in w cs)"

function str_count :: "string \<Rightarrow> string \<Rightarrow> nat" where
  \<comment> \<open>\<open>s.count(word)\<close>: the occurrences of \<open>word\<close> in \<open>s\<close>, scanned from the left without overlap.\<close>
  "str_count w s =
     (if w = [] then length s + 1
      else if length s < length w then 0
      else if prefix w s then 1 + str_count w (drop (length w) s)
      else str_count w (tl s))"
  by pat_completeness auto
termination
  by (relation "measure (\<lambda>(w, s). length s)") (auto simp: neq_Nil_conv)

declare str_count.simps [simp del]

definition score_chunk :: "string \<Rightarrow> string \<Rightarrow> int" where
  \<comment> \<open>The inner loop over \<open>query_lower.split()\<close>, starting from \<open>score = 0\<close>.\<close>
  "score_chunk query_lower content_lower =
     fold (\<lambda>word score. if str_in word content_lower
                         then score + int (str_count word content_lower) else score)
          (py_split query_lower) 0"

fun collect :: "string \<Rightarrow> chunk list \<Rightarrow> scored_chunk list" where
  \<comment> \<open>The loop over \<open>self.chunks\<close>: the chunks with \<open>score > 0\<close>, in the order of the store.\<close>
  "collect query_lower [] = []"
| "collect query_lower (c # cs) =
     (let score = score_chunk query_lower (lower (content c))
      in if score > 0 then with_score c score # collect query_lower cs
         else collect query_lower cs)"

definition sort_reverse :: "('a \<Rightarrow> int) \<Rightarrow> 'a list \<Rightarrow> 'a list" where
  \<comment> \<open>\<open>list.sort(key=..., reverse=True)\<close>: a stable sort by descending key.\<close>
  "sort_reverse key xs = sort_key (\<lambda>x. - key x) xs"

definition search_documents :: "chunk list \<Rightarrow> string \<Rightarrow> int \<Rightarrow> scored_chunk list" where
  "search_documents chunks query top_k =
     (let query_lower = lower query;
          results = collect query_lower chunks
      in py_slice (sort_reverse relevance_score results) 0 top_k)"


definition example_chunks :: "chunk list" where
  \<comment> \<open>A small store: four chunks of one document, in insertion order.\<close>
  "example_chunks =
     [\<lparr>chunk_id = ''d_page1_chunk0'', document_id = ''d'', filename = ''spec.pdf'',
        page_number = 1, chunk_index = 0, content = ''Fire rating: 1 HR for corridor''\<rparr>,
      \<lparr>chunk_id = ''d_page1_chunk1'', document_id = ''d'', filename = ''spec.pdf'',
        page_number = 1, chunk_index = 1, content = ''fire fire''\<rparr>,
      \<lparr>chunk_id = ''d_page2_chunk0'', document_id = ''d'', filename = ''spec.pdf'',
        page_number = 2, chunk_index = 0, content = ''floor finishes''\<rparr>,
      \<lparr>chunk_id = ''d_page3_chunk0'', document_id = ''d'', filename = ''spec.pdf'',
        page_number = 3, chunk_index = 0, content = ''corridor FIRE''\<rparr>]"

section \<open>Ingestion (document_processor_simple.py, \<open>process_document\<close>)\<close>

text \<open>
  \<open>PdfReader\<close> is outside the repository: \<open>reader\<close> maps the bytes of a file to its pages,
  \<open>None\<close> when the file cannot be opened; a page is its extracted text, \<open>None\<close> when
  \<open>extract_text\<close> raises. The \<open>try\<close> of \<open>_extract_and_chunk_pdf\<close> ends the loop at the
  first exception and keeps the chunks made so far.
\<close>

definition make_chunk :: "string \<Rightarrow> string \<Rightarrow> nat \<Rightarrow> nat \<times> string \<Rightarrow> chunk" where
  "make_chunk doc_id file_name page_num ic =
     \<lparr>chunk_id = doc_id @ ''_page'' @ str_of_nat page_num @ ''_chunk'' @ str_of_nat (fst ic),
      document_id = doc_id, filename = file_name, page_number = page_num,
      chunk_index = fst ic, content = snd ic\<rparr>"

fun page_loop ::
  "string \<Rightarrow> string \<Rightarrow> nat \<Rightarrow> string option list \<Rightarrow> chunk list \<Rightarrow> chunk list option" where
  "page_loop doc_id file_name page_num [] chunks = Some chunks"
| "page_loop doc_id file_name page_num (None # pages) chunks = Some chunks"
| "page_loop doc_id file_name page_num (Some text # pages) chunks =
     (case page_chunks text of
        None \<Rightarrow> None
      | Some pcs \<Rightarrow>
          page_loop doc_id file_name (page_num + 1) pages
            (chunks @ map (make_chunk doc_id file_name page_num) (enumerate 0 pcs)))"

definition extract_and_chunk_pdf ::
  "(byte list \<Rightarrow> string option list option) \<Rightarrow> byte list \<Rightarrow> string \<Rightarrow> string \<Rightarrow>
     chunk list option" where
  "extract_and_chunk_pdf reader file_bytes doc_id file_name =
     (case reader file_bytes of
        None \<Rightarrow> Some []
      | Some pages \<Rightarrow> page_loop doc_id file_name 1 pages [])"

record upload_file =
  up_filename :: string
  up_content :: "byte list"

record document_entry =
  d_filename :: string
  d_path :: string
  d_chunks :: "chunk list"

record document_metadata =
  m_filename :: string
  m_path :: string
  m_chunks_count :: nat

record processor =
  p_upload_dir :: string
  p_documents :: "string \<rightharpoonup> document_entry"
  p_chunks :: "chunk list"
  p_documents_metadata :: "string \<rightharpoonup> document_metadata"

record process_result =
  res_document_id :: string
  res_filename :: string
  res_chunks_count :: nat

definition process_document ::
  "(byte list \<Rightarrow> string option list option) \<Rightarrow> upload_file \<Rightarrow> processor \<Rightarrow>
     (process_result \<times> processor) option" where
  "process_document reader file self =
     (let file_path = p_upload_dir self @ ''/'' @ up_filename file;
          doc_id = md5_hexdigest (encode (up_filename file))
      in case extract_and_chunk_pdf reader (up_content file) doc_id (up_filename file) of
           None \<Rightarrow> None
         | Some text_chunks \<Rightarrow>
             Some (\<lparr>res_document_id = doc_id, res_filename = up_filename file,
                     res_chunks_count = length text_chunks\<rparr>,
                   self\<lparr>p_documents := (p_documents self)(doc_id \<mapsto>
                            \<lparr>d_filename = up_filename file, d_path = file_path,
                             d_chunks = text_chunks\<rparr>),
                         p_chunks := p_chunks self @ text_chunks,
                         p_documents_metadata := (p_documents_metadata self)(doc_id \<mapsto>
                            \<lparr>m_filename = up_filename file, m_path = file_path,
                             m_chunks_count = length text_chunks\<rparr>)\<rparr>))"

definition example_file :: upload_file where
  "example_file = \<lparr>up_filename = ''a.pdf'', up_content = [0x25, 0x50, 0x44, 0x46]\<rparr>"

definition example_reader :: "byte list \<Rightarrow> string option list option" where
  \<comment> \<open>A reader for which every file has the one page \<open>Fire rating: 1 HR\<close>.\<close>
  "example_reader file_bytes = Some [Some ''Fire rating: 1 HR'']"

definition empty_processor :: processor where
  "empty_processor =
     \<lparr>p_upload_dir = ''data/uploads'', p_documents = Map.empty, p_chunks = [],
      p_documents_metadata = Map.empty\<rparr>"

section \<open>Errors, retrieved documents and the services outside the repository\<close>

datatype py_error = KeyError string | TypeError | AttributeError | JSONDecodeError
  | ValueError string | APIError string

record retrieved_doc =
  doc_text :: string
  doc_filename :: string
  doc_page :: nat

record source =
  src_filename :: string
  src_page :: nat
  src_text_preview :: "string option"

type_synonym turn = "string \<times> string"

type_synonym conversations = "string \<rightharpoonup> turn list"

record query_result =
  q_answer :: string
  q_sources :: "source list"
  q_conversation_id :: string
  q_confidence :: "string option"
  q_structured_data :: "json option"

text \<open>
  What the pipeline and the extractor call outside the repository: \<open>doc_processor.search\<close>
  on the vector store (the pipeline and the extractor open the same collection),
  \<open>_generate_answer\<close> (the call of the generation service for an answer, which catches
  every exception and returns a text), the completion call of \<open>_extract_with_gpt\<close> for
  the prompt of an extraction type filled with a context (\<open>Inl\<close> when it raises, else the
  message content, which may be \<open>None\<close>), \<open>json.loads\<close> (\<open>None\<close> when it raises
  \<open>JSONDecodeError\<close>), the lines that \<open>_format_extraction_as_text\<close> writes for a list of
  records, and \<open>str(uuid.uuid4())\<close>.
\<close>

record rag_env =
  env_search :: "string \<Rightarrow> nat \<Rightarrow> retrieved_doc list"
  env_generate_answer :: "string \<Rightarrow> string \<Rightarrow> turn list \<Rightarrow> string"
  env_complete :: "string \<Rightarrow> string \<Rightarrow> py_error + string option"
  env_loads :: "string \<Rightarrow> json option"
  env_render_items :: "string \<Rightarrow> json list \<Rightarrow> string"
  env_uuid4 :: string

definition context_part :: "retrieved_doc \<Rightarrow> string" where
  \<comment> \<open>\<open>f"[{filename}, Page {page}]\n{text}"\<close>\<close>
  "context_part doc =
     ''['' @ doc_filename doc @ '', Page '' @ str_of_nat (doc_page doc) @ '']'' @
     [CHR 0x0A] @ doc_text doc"

section \<open>Structured extraction (structured_extractor.py)\<close>

text \<open>
  \<open>json.loads\<close> is a parameter, \<open>None\<close> when it raises \<open>JSONDecodeError\<close>.
  \<open>re_search_array\<close> is \<open>re.search(r'\[.*\]', text, re.DOTALL)\<close>: from the first opening
  bracket to the last closing bracket after it.
\<close>

definition re_search_array :: "string \<Rightarrow> string option" where
  "re_search_array text =
     (case dropWhile (\<lambda>c. c \<noteq> CHR ''['') text of
        [] \<Rightarrow> None
      | rest \<Rightarrow>
          (case dropWhile (\<lambda>c. c \<noteq> CHR '']'') (rev rest) of
             [] \<Rightarrow> None
           | m \<Rightarrow> Some (rev m)))"

fun first_list_key :: "(string \<times> json) list \<Rightarrow> string list \<Rightarrow> json" where
  \<comment> \<open>The loop over the common keys: the first key whose value is a list, else \<open>[]\<close>.\<close>
  "first_list_key kvs [] = JList []"
| "first_list_key kvs (key # keys) =
     (case map_of kvs key of
        Some (JList xs) \<Rightarrow> JList xs
      | _ \<Rightarrow> first_list_key kvs keys)"

definition common_keys :: "string list" where
  "common_keys = [''data'', ''items'', ''results'', ''doors'', ''rooms'', ''equipment'']"

definition parse_response :: "(string \<Rightarrow> json option) \<Rightarrow> string \<Rightarrow> py_error + json" where
  \<comment> \<open>The inner \<open>try\<close>. \<open>key in data\<close> is a substring test on a string, after which
      \<open>data[key]\<close> raises \<open>TypeError\<close>; on a number, a boolean or \<open>None\<close> it raises
      \<open>TypeError\<close> itself.\<close>
  "parse_response loads result_text =
     (case loads result_text of
        Some (JList xs) \<Rightarrow> Inr (JList xs)
      | Some (JDict kvs) \<Rightarrow> Inr (first_list_key kvs common_keys)
      | Some (JStr s) \<Rightarrow>
          if list_ex (\<lambda>key. str_in key s) common_keys then Inl TypeError else Inr (JList [])
      | Some _ \<Rightarrow> Inl TypeError
      | None \<Rightarrow>
          (case re_search_array result_text of
             Some json_match \<Rightarrow>
               (case loads json_match of
                  Some v \<Rightarrow> Inr v
                | None \<Rightarrow> Inl JSONDecodeError)
           | None \<Rightarrow> Inr (JList [])))"

definition extract_with_gpt ::
  "(string \<Rightarrow> json option) \<Rightarrow> py_error + string option \<Rightarrow> py_error + json" where
  \<comment> \<open>\<open>response\<close> is the outcome of the call of the generation service: \<open>Inl\<close> when it
      raises, else the message content, which may be \<open>None\<close>. The outer
      \<open>except Exception\<close> returns \<open>[]\<close>.\<close>
  "extract_with_gpt loads response =
     (case (case response of
              Inl e \<Rightarrow> Inl e
            | Inr None \<Rightarrow> Inl TypeError
            | Inr (Some result_text) \<Rightarrow> parse_response loads result_text) of
        Inl e \<Rightarrow> Inr (JList [])
      | Inr v \<Rightarrow> Inr v)"



definition example_loads :: "string \<Rightarrow> json option" where
  \<comment> \<open>\<open>json.loads\<close> restricted to four texts, for the examples.\<close>
  "example_loads s =
     (if s = ''[]'' then Some (JList [])
      else if s = ''[1]'' then Some (JList [JInt 1])
      else if s = ''[{}]'' then Some (JList [JDict []])
      else if s = ''7'' then Some (JInt 7)
      else None)"

definition extraction_queries :: "string \<Rightarrow> string list option" where
  \<comment> \<open>The retrieval queries of each extraction type; \<open>None\<close> for a type that is not in
      \<open>extraction_map\<close>.\<close>
  "extraction_queries extraction_type =
     (if extraction_type = ''door_schedule''
      then Some [''door schedule specifications'', ''door types fire rating dimensions'',
                 ''door hardware requirements'']
      else if extraction_type = ''room_summary''
      then Some [''room schedule area floor finish'', ''room types specifications ceiling'',
                 ''space planning room dimensions'']
      else if extraction_type = ''equipment_list''
      then Some [''mechanical equipment HVAC specifications'', ''electrical equipment MEP systems'',
                 ''plumbing fixtures equipment schedule'']
      else None)"

fun dict_put :: "(string \<times> 'a) list \<Rightarrow> string \<Rightarrow> 'a \<Rightarrow> (string \<times> 'a) list" where
  \<comment> \<open>\<open>d[k] = v\<close> on a dict held as its items in insertion order.\<close>
  "dict_put [] k v = [(k, v)]"
| "dict_put ((k', v') # d) k v = (if k' = k then (k, v) # d else (k', v') # dict_put d k v)"

definition unique_docs :: "retrieved_doc list \<Rightarrow> retrieved_doc list" where
  \<comment> \<open>\<open>{doc['text']: doc for doc in all_docs}.values()\<close>\<close>
  "unique_docs all_docs = map snd (fold (\<lambda>doc d. dict_put d (doc_text doc) doc) all_docs [])"

definition build_extraction_context :: "retrieved_doc list \<Rightarrow> string" where
  "build_extraction_context docs =
     join [CHR 0x0A, CHR 0x0A] (map context_part (py_slice docs 0 15))"

fun extract_sources_loop :: "retrieved_doc list \<Rightarrow> string list \<Rightarrow> source list" where
  "extract_sources_loop [] seen = []"
| "extract_sources_loop (doc # docs) seen =
     (let source_key = doc_filename doc @ ''_'' @ str_of_nat (doc_page doc)
      in if source_key \<notin> set seen
         then \<lparr>src_filename = doc_filename doc, src_page = doc_page doc,
               src_text_preview = None\<rparr>
              # extract_sources_loop docs (source_key # seen)
         else extract_sources_loop docs seen)"

definition extract_sources :: "retrieved_doc list \<Rightarrow> source list" where
  "extract_sources docs = py_slice (extract_sources_loop docs []) 0 10"

definition extractor_extract :: "rag_env \<Rightarrow> string \<Rightarrow> py_error + (json \<times> source list)" where
  \<comment> \<open>\<open>StructuredExtractor.extract\<close> with the three \<open>_extract_...\<close> methods, which differ in
      their queries and in their prompt only.\<close>
  "extractor_extract env extraction_type =
     (case extraction_queries extraction_type of
        None \<Rightarrow> Inl (ValueError (''Unsupported extraction type: '' @ extraction_type))
      | Some queries \<Rightarrow>
          (let all_docs = concat (map (\<lambda>query. env_search env query 10) queries);
               unique = unique_docs all_docs;
               context = build_extraction_context unique
           in case extract_with_gpt (env_loads env) (env_complete env extraction_type context) of
                Inl e \<Rightarrow> Inl e
              | Inr data \<Rightarrow> Inr (data, extract_sources unique)))"

section \<open>The question-answering pipeline (rag_pipeline.py)\<close>

definition is_extraction_request :: "string \<Rightarrow> bool" where
  "is_extraction_request query =
     (let extraction_keywords =
            [''door schedule'', ''generate a door schedule'', ''room summary'', ''list all rooms'',
             ''equipment list'', ''mep equipment''];
          query_lower = lower query
      in list_ex (\<lambda>keyword. str_in keyword query_lower) extraction_keywords)"

definition replace_underscore :: "string \<Rightarrow> string" where
  \<comment> \<open>\<open>extraction_type.replace('_', ' ')\<close>\<close>
  "replace_underscore s = map (\<lambda>c. if c = CHR ''_'' then CHR '' '' else c) s"

definition py_not :: "json \<Rightarrow> bool" where
  \<comment> \<open>\<open>not data\<close>\<close>
  "py_not data =
     (case data of
        JNull \<Rightarrow> True | JBool b \<Rightarrow> \<not> b | JInt i \<Rightarrow> i = 0 | JStr s \<Rightarrow> s = []
      | JList xs \<Rightarrow> xs = [] | JDict kvs \<Rightarrow> kvs = [])"

definition found_header :: "string \<Rightarrow> nat \<Rightarrow> string" where
  \<comment> \<open>The first line of the text for a non-empty extraction, with \<open>len(data)\<close>.\<close>
  "found_header extraction_type n =
     (if extraction_type = ''door_schedule''
      then ''I found '' @ str_of_nat n @ '' doors in the documents:'' @ [CHR 0x0A, CHR 0x0A]
      else if extraction_type = ''room_summary''
      then ''I found '' @ str_of_nat n @ '' rooms in the documents:'' @ [CHR 0x0A, CHR 0x0A]
      else ''I found '' @ str_of_nat n @ '' equipment items:'' @ [CHR 0x0A, CHR 0x0A])"

definition format_extraction_as_text :: "rag_env \<Rightarrow> json \<Rightarrow> string \<Rightarrow> py_error + string" where
  \<comment> \<open>A record that is not a dict has no \<open>get\<close> (\<open>AttributeError\<close>), as have the keys
      of a dict and the characters of a string; a number has no \<open>len\<close> (\<open>TypeError\<close>).\<close>
  "format_extraction_as_text env data extraction_type =
     (if py_not data
      then Inr (''No '' @ replace_underscore extraction_type @ '' data found in the documents.'')
      else case data of
             JList xs \<Rightarrow>
               if list_all is_json_dict xs
               then Inr (found_header extraction_type (length xs) @
                         env_render_items env extraction_type xs)
               else Inl AttributeError
           | JDict kvs \<Rightarrow> Inl AttributeError
           | JStr s \<Rightarrow> Inl AttributeError
           | _ \<Rightarrow> Inl TypeError)"

definition extraction_type_of :: "string \<Rightarrow> string" where
  \<comment> \<open>\<open>Determine extraction type\<close> in \<open>_handle_extraction_request\<close>\<close>
  "extraction_type_of query =
     (let query_lower = lower query
      in if str_in ''door'' query_lower then ''door_schedule''
         else if str_in ''room'' query_lower then ''room_summary''
         else ''equipment_list'')"


definition handle_extraction_request ::
  "rag_env \<Rightarrow> string \<Rightarrow> string \<Rightarrow> py_error + query_result" where
  "handle_extraction_request env query conversation_id =
     (let extraction_type = extraction_type_of query
      in case extractor_extract env extraction_type of
           Inl e \<Rightarrow> Inl e
         | Inr (data, srcs) \<Rightarrow>
             (case format_extraction_as_text env data extraction_type of
                Inl e \<Rightarrow> Inl e
              | Inr answer \<Rightarrow>
                  Inr \<lparr>q_answer = answer, q_sources = srcs, q_conversation_id = conversation_id,
                       q_confidence = None, q_structured_data = Some data\<rparr>))"

definition build_context :: "retrieved_doc list \<Rightarrow> string" where
  "build_context retrieved_docs = join [CHR 0x0A, CHR 0x0A] (map context_part retrieved_docs)"

fun format_sources_loop :: "retrieved_doc list \<Rightarrow> string list \<Rightarrow> source list" where
  "format_sources_loop [] seen = []"
| "format_sources_loop (doc # docs) seen =
     (let source_key = doc_filename doc @ ''_'' @ str_of_nat (doc_page doc)
      in if source_key \<notin> set seen
         then \<lparr>src_filename = doc_filename doc, src_page = doc_page doc,
               src_text_preview =
                 Some (if length (doc_text doc) > 200 then py_slice (doc_text doc) 0 200 @ ''...''
                       else doc_text doc)\<rparr>
              # format_sources_loop docs (source_key # seen)
         else format_sources_loop docs seen)"

definition format_sources :: "retrieved_doc list \<Rightarrow> source list" where
  "format_sources retrieved_docs = format_sources_loop retrieved_docs []"

definition no_information_answer :: string where
  "no_information_answer =
     ''I couldn'' @ [CHR 0x27] @
     ''t find any relevant information in the documents. Please make sure documents have been uploaded.''"


definition process_query ::
  "rag_env \<Rightarrow> string \<Rightarrow> string option \<Rightarrow> conversations \<Rightarrow>
     (py_error + query_result) \<times> conversations" where
  \<comment> \<open>\<open>not conversation_id\<close> holds for \<open>None\<close> and for the empty string. The last branch is
      \<open>self.conversations[conversation_id].append(...)\<close>, twice: indexing a missing key
      raises \<open>KeyError\<close>.\<close>
  "process_query env query conversation_id convs =
     (let (cid, convs1) =
            (case conversation_id of
               None \<Rightarrow> (env_uuid4 env, convs(env_uuid4 env \<mapsto> []))
             | Some c \<Rightarrow> if c = [] then (env_uuid4 env, convs(env_uuid4 env \<mapsto> []))
                         else (c, convs))
      in if is_extraction_request query then (handle_extraction_request env query cid, convs1)
         else
           let retrieved_docs = env_search env query 5
           in if retrieved_docs = []
              then (Inr \<lparr>q_answer = no_information_answer, q_sources = [],
                         q_conversation_id = cid, q_confidence = None,
                         q_structured_data = None\<rparr>, convs1)
              else
                let context = build_context retrieved_docs;
                    history = (case convs1 cid of None \<Rightarrow> [] | Some h \<Rightarrow> h);
                    answer = env_generate_answer env query context history;
                    srcs = format_sources retrieved_docs
                in case convs1 cid of
                     None \<Rightarrow> (Inl (KeyError cid), convs1)
                   | Some turns \<Rightarrow>
                       (Inr \<lparr>q_answer = answer, q_sources = srcs, q_conversation_id = cid,
                             q_confidence = None, q_structured_data = None\<rparr>,
                        convs1(cid \<mapsto> turns @ [(''user'', query), (''assistant'', answer)])))"

definition example_env :: rag_env where
  \<comment> \<open>A store in which every search finds one chunk, a generation service that answers
      \<open>1 HR\<close> and extracts no record.\<close>
  "example_env =
     \<lparr>env_search = (\<lambda>query n. [\<lparr>doc_text = ''Fire rating: 1 HR'', doc_filename = ''a.pdf'',
                                  doc_page = 1\<rparr>]),
      env_generate_answer = (\<lambda>query context history. ''1 HR''),
      env_complete = (\<lambda>extraction_type context. Inr (Some ''[]'')),
      env_loads = example_loads,
      env_render_items = (\<lambda>extraction_type data. concat (map (\<lambda>item. ''- N/A'' @ [CHR 0x0A]) data)),
      env_uuid4 = ''00000000-0000-4000-8000-000000000000''\<rparr>"



section \<open>Facts about strings and slices\<close>

lemma trimmed_strip: "trimmed (strip s)"
proof (cases "strip s = []")
  case True
  then show ?thesis by (simp add: trimmed_def)
next
  case False
  define xs where "xs = dropWhile isspace s"
  define ys where "ys = dropWhile isspace (rev xs)"
  have s: "strip s = rev ys" by (simp add: strip_def xs_def ys_def)
  with False have ne: "ys \<noteq> []" by simp
  then have xne: "xs \<noteq> []" by (auto simp: ys_def)
  have "\<not> isspace (hd ys)" using ne unfolding ys_def by (rule hd_dropWhile)
  then have l: "\<not> isspace (last (strip s))" using ne by (simp add: s last_rev)
  obtain x where "x \<in> set (rev xs)" "\<not> isspace x"
    using ne unfolding ys_def dropWhile_eq_Nil_conv by blast
  then have "last ys = last (rev xs)" unfolding ys_def by (rule dropWhile_last)
  then have "hd (strip s) = hd xs" using ne xne by (simp add: s hd_rev last_rev)
  moreover have "\<not> isspace (hd xs)" using xne unfolding xs_def by (rule hd_dropWhile)
  ultimately show ?thesis using l by (simp add: trimmed_def)
qed

lemma length_strip_le: "length (strip s) \<le> length s"
proof -
  have "length (strip s) \<le> length (dropWhile isspace s)"
    unfolding strip_def using length_dropWhile_le[of isspace "rev (dropWhile isspace s)"] by simp
  also have "\<dots> \<le> length s" by (rule length_dropWhile_le)
  finally show ?thesis .
qed

lemma length_py_slice_le:
  "0 \<le> c \<Longrightarrow> 0 \<le> a \<Longrightarrow> int (length (py_slice xs a (a + c))) \<le> c"
  by (auto simp: py_slice_def Let_def)

lemma length_py_slice_full:
  "0 \<le> c \<Longrightarrow> 0 \<le> a \<Longrightarrow> a + c \<le> int (length xs) \<Longrightarrow>
     int (length (py_slice xs a (a + c))) = c"
  by (auto simp: py_slice_def Let_def)

lemma length_py_slice_short:
  "0 < c \<Longrightarrow> 0 \<le> a \<Longrightarrow> int (length xs) < a + c \<Longrightarrow>
     int (length (py_slice xs a (a + c))) < c"
  by (auto simp: py_slice_def Let_def)

section \<open>The chunker: termination and the number of steps\<close>

lemma ceil_div_aux: "0 < (b::int) \<Longrightarrow> - (- a div b) = (a + b - 1) div b"
proof (cases "a mod b = 0")
  case True
  assume b: "0 < b"
  have "a = b * (a div b) + a mod b" by simp
  then have "a + b - 1 = b * (a div b) + (b - 1)" using True by simp
  then have "(a + b - 1) div b = a div b"
    using b by (intro int_div_pos_eq[where r="b - 1"]) auto
  moreover have "- a div b = - (a div b)" using True b by (simp add: zdiv_zminus1_eq_if)
  ultimately show ?thesis by simp
next
  case False
  assume b: "0 < b"
  have m: "0 < a mod b" using False b by (simp add: order_less_le)
  have "a = b * (a div b) + a mod b" by simp
  then have "a + b - 1 = b * (a div b + 1) + (a mod b - 1)" by (simp add: algebra_simps)
  then have "(a + b - 1) div b = a div b + 1"
    using b m pos_mod_bound[OF b, of a] by (intro int_div_pos_eq[where r="a mod b - 1"]) auto
  moreover have "- a div b = - (a div b) - 1" using False b by (simp add: zdiv_zminus1_eq_if)
  ultimately show ?thesis by simp
qed

lemma ceil_div: "0 < (b::int) \<Longrightarrow> \<lceil>real_of_int a / real_of_int b\<rceil> = (a + b - 1) div b"
  by (simp add: ceiling_divide_eq_div ceil_div_aux)

lemma div_step: "0 < (b::int) \<Longrightarrow> 0 \<le> a \<Longrightarrow> nat ((a + b) div b) = Suc (nat (a div b))"
proof -
  assume b: "0 < b" and a: "0 \<le> a"
  have "(a + b) div b = a div b + 1" using b by simp
  moreover have "0 \<le> a div b" using a b by (simp add: pos_imp_zdiv_nonneg_iff)
  ultimately show ?thesis by simp
qed

lemma div_done: "0 < (b::int) \<Longrightarrow> a \<le> 0 \<Longrightarrow> nat ((a + b - 1) div b) = 0"
proof -
  assume b: "0 < b" and a: "a \<le> 0"
  have "(a + b - 1) div b \<le> (b - 1) div b" using a b by (intro zdiv_mono1) auto
  also have "\<dots> = 0" using b by simp
  finally show ?thesis by simp
qed

lemma chunk_loop_steps:
  assumes "0 < chunk_size - overlap"
  shows "chunk_loop text chunk_size overlap start chunks =
           Some (chunks @ map (\<lambda>k. strip (py_slice text (start + int k * (chunk_size - overlap))
                                        (start + int k * (chunk_size - overlap) + chunk_size)))
                            [0..<nat ((int (length text) - start + (chunk_size - overlap) - 1) div (chunk_size - overlap))])"
proof (induction "nat (int (length text) - start)" arbitrary: start chunks rule: less_induct)
  case less
  define d where "d = chunk_size - overlap"
  define w where "w = (\<lambda>s. strip (py_slice text s (s + chunk_size)))"
  have d: "0 < d" using assms by (simp add: d_def)
  show ?case
  proof (cases "start < int (length text)")
    case False
    then have "nat ((int (length text) - start + d - 1) div d) = 0"
      using div_done[OF d, of "int (length text) - start"] by simp
    moreover have "chunk_loop text chunk_size overlap start chunks = Some chunks"
      using False by (subst chunk_loop.simps) simp
    ultimately show ?thesis by (simp add: d_def)
  next
    case True
    let ?r = "int (length text) - start - 1"
    have r: "0 \<le> ?r" using True by simp
    have lt: "nat (int (length text) - (start + (chunk_size - overlap))) < nat (int (length text) - start)"
      using True d by (simp add: d_def)
    have e: "int (length text) - start + d - 1 = ?r + d" by simp
    have n: "nat ((int (length text) - start + d - 1) div d) = Suc (nat (?r div d))"
      unfolding e by (rule div_step[OF d r])
    have n': "int (length text) - (start + d) + d - 1 = ?r" by simp
    have "chunk_loop text chunk_size overlap start chunks =
          chunk_loop text chunk_size overlap (start + (chunk_size - overlap)) (chunks @ [w start])"
      using True by (subst chunk_loop.simps) (simp add: w_def)
    also have "\<dots> = Some ((chunks @ [w start]) @ map (\<lambda>k. w (start + d + int k * d)) [0..<nat (?r div d)])"
      using less[OF lt, of "chunks @ [w start]"] n' by (simp add: d_def w_def)
    also have "map (\<lambda>k. w (start + d + int k * d)) [0..<nat (?r div d)] =
               map (\<lambda>k. w (start + int (Suc k) * d)) [0..<nat (?r div d)]"
      by (simp add: algebra_simps)
    also have "(chunks @ [w start]) @ map (\<lambda>k. w (start + int (Suc k) * d)) [0..<nat (?r div d)] =
               chunks @ map (\<lambda>k. w (start + int k * d)) [0..<Suc (nat (?r div d))]"
      by (simp add: map_upt_Suc del: upt_Suc of_nat_Suc)
    finally show ?thesis using n by (simp add: d_def w_def)
  qed
qed


lemma chunk_text_eq:
  assumes "overlap < chunk_size"
  shows "chunk_text text chunk_size overlap =
           Some (map (\<lambda>k. strip (window text chunk_size overlap k))
                  [0..<nat \<lceil>real (length text) / real_of_int (chunk_size - overlap)\<rceil>])"
proof -
  have d: "0 < chunk_size - overlap" using assms by simp
  have "\<lceil>real (length text) / real_of_int (chunk_size - overlap)\<rceil> =
        (int (length text) + (chunk_size - overlap) - 1) div (chunk_size - overlap)"
    using ceil_div[OF d, of "int (length text)"] by simp
  then show ?thesis
    unfolding chunk_text_def chunk_loop_steps[OF d] window_def by simp
qed

lemma ceiling_length_nonneg:
  "0 < d \<Longrightarrow> 0 \<le> \<lceil>real (length (text :: string)) / real_of_int d\<rceil>"
proof -
  assume "0 < d"
  then have "0 \<le> real (length text) / real_of_int d" by simp
  then have "(0::real) \<le> of_int \<lceil>real (length text) / real_of_int d\<rceil>"
    using le_of_int_ceiling[of "real (length text) / real_of_int d"] by linarith
  then show ?thesis by simp
qed

section \<open>Claims about the chunker\<close>

text \<open>
  Claim C4, as the code has it. For \<open>overlap < chunk_size\<close> the chunker returns, and the number
  of chunks is \<open>ceil(L / (chunk_size - overlap))\<close> for a text of length \<open>L\<close>: one chunk per
  window start \<open>0, C - O, 2 (C - O), \<dots>\<close> below \<open>L\<close>. The empty text gives no chunk. A page
  whose text is empty or whitespace-only gives no chunk either, because the page loop of
  \<open>_extract_and_chunk_pdf\<close> skips it before the chunker is called.
\<close>

theorem C4_chunk_count:
  "overlap < chunk_size \<Longrightarrow>
     (\<exists>cs. chunk_text text chunk_size overlap = Some cs \<and>
           int (length cs) = \<lceil>real (length text) / real_of_int (chunk_size - overlap)\<rceil>) \<and>
     chunk_text [] chunk_size overlap = Some [] \<and>
     (strip page = [] \<longrightarrow> page_chunks page = Some [])"
proof -
  assume a: "overlap < chunk_size"
  then have d: "0 < chunk_size - overlap" by simp
  have "0 \<le> \<lceil>real (length text) / real_of_int (chunk_size - overlap)\<rceil>"
    using d by (rule ceiling_length_nonneg)
  then have 1: "\<exists>cs. chunk_text text chunk_size overlap = Some cs \<and>
           int (length cs) = \<lceil>real (length text) / real_of_int (chunk_size - overlap)\<rceil>"
    by (simp add: chunk_text_eq[OF a])
  have 2: "chunk_text [] chunk_size overlap = Some []"
    by (simp add: chunk_text_eq[OF a])
  have 3: "strip page = [] \<longrightarrow> page_chunks page = Some []"
    by (simp add: page_chunks_def)
  from 1 2 3 show ?thesis by blast
qed

theorem C4_chunk_count_witness:
  "(1::int) < 3 \<and>
   (\<exists>cs. chunk_text ''abc'' 3 1 = Some cs \<and>
         int (length cs) = \<lceil>real (length ''abc'') / real_of_int (3 - 1)\<rceil>) \<and>
   chunk_text [] 3 1 = Some [] \<and>
   strip '' '' = [] \<and> page_chunks '' '' = Some []"
proof -
  have s: "strip '' '' = []" by (simp add: strip_def isspace_def)
  show ?thesis using C4_chunk_count[of 1 3 "''abc''" "'' ''"] s by simp
qed

text \<open>
  The count of claim C4 as the specification words it, \<open>ceil((L - O) / (C - O))\<close>, is not the
  count of the code: the text \<open>abc\<close> with chunk size 3 and overlap 1 has windows starting
  at 0 and at 2, hence two chunks, where the formula gives one.
\<close>

theorem C4_spec_count_counterexample:
  "chunk_text ''abc'' 3 1 = Some [''abc'', ''c''] \<and>
   int (length [''abc'', ''c'']) \<noteq> spec_chunk_count (int (length ''abc'')) 3 1"
proof -
  have "chunk_text ''abc'' 3 1 = Some [''abc'', ''c'']" by code_simp
  moreover have "spec_chunk_count (int (length ''abc'')) 3 1 = 1"
    by (simp add: spec_chunk_count_def)
  ultimately show ?thesis by simp
qed

text \<open>
  Claim C10, as the code has it. For \<open>overlap < chunk_size\<close> and \<open>0 < chunk_size\<close> the chunker
  returns a finite list; chunk \<open>k\<close> is the trimmed window \<open>text[k (C - O) : k (C - O) + C]\<close>, so
  the window advances by \<open>C - O\<close> per step; every chunk is trimmed and at most \<open>C\<close> long; a
  window is \<open>C\<close> long when it ends inside the text and shorter when it starts after
  \<open>L - C\<close>, which several windows at the end can do, not only the last.
\<close>

theorem C10_chunker_terminates:
  "overlap < chunk_size \<Longrightarrow> 0 < chunk_size \<Longrightarrow>
     (\<exists>cs. chunk_text text chunk_size overlap = Some cs \<and>
           (\<forall>k < length cs. cs ! k = strip (window text chunk_size overlap k)) \<and>
           (\<forall>c \<in> set cs. trimmed c \<and> int (length c) \<le> chunk_size)) \<and>
     (\<forall>k. int k * (chunk_size - overlap) + chunk_size \<le> int (length text) \<longrightarrow>
            int (length (window text chunk_size overlap k)) = chunk_size) \<and>
     (\<forall>k. int (length text) < int k * (chunk_size - overlap) + chunk_size \<longrightarrow>
            int (length (window text chunk_size overlap k)) < chunk_size)"
proof -
  assume a: "overlap < chunk_size" and c: "0 < chunk_size"
  define n where "n = nat \<lceil>real (length text) / real_of_int (chunk_size - overlap)\<rceil>"
  define cs where "cs = map (\<lambda>k. strip (window text chunk_size overlap k)) [0..<n]"
  have pos: "0 \<le> int k * (chunk_size - overlap)" for k using a by simp
  have c0: "0 \<le> chunk_size" using c by simp
  have wl: "int (length (window text chunk_size overlap k)) \<le> chunk_size" for k
    unfolding window_def by (rule length_py_slice_le[OF c0 pos])
  have e: "chunk_text text chunk_size overlap = Some cs"
    unfolding cs_def n_def by (rule chunk_text_eq[OF a])
  have i: "\<forall>k < length cs. cs ! k = strip (window text chunk_size overlap k)"
    by (simp add: cs_def)
  have t: "\<forall>c \<in> set cs. trimmed c \<and> int (length c) \<le> chunk_size"
  proof
    fix x assume "x \<in> set cs"
    then obtain k where x: "x = strip (window text chunk_size overlap k)"
      by (auto simp: cs_def)
    have "int (length x) \<le> int (length (window text chunk_size overlap k))"
      unfolding x using length_strip_le by simp
    then show "trimmed x \<and> int (length x) \<le> chunk_size"
      using wl[of k] by (simp add: x trimmed_strip)
  qed
  have f: "\<forall>k. int k * (chunk_size - overlap) + chunk_size \<le> int (length text) \<longrightarrow>
            int (length (window text chunk_size overlap k)) = chunk_size"
    unfolding window_def by (intro allI impI) (rule length_py_slice_full[OF c0 pos])
  have s: "\<forall>k. int (length text) < int k * (chunk_size - overlap) + chunk_size \<longrightarrow>
            int (length (window text chunk_size overlap k)) < chunk_size"
    unfolding window_def by (intro allI impI) (rule length_py_slice_short[OF c pos])
  from e i t f s show ?thesis by blast
qed

theorem C10_chunker_terminates_witness:
  "(2::int) < 3 \<and> (0::int) < 3 \<and>
   (\<exists>cs. chunk_text ''abcd'' 3 2 = Some cs \<and>
         (\<forall>k < length cs. cs ! k = strip (window ''abcd'' 3 2 k)) \<and>
         (\<forall>c \<in> set cs. trimmed c \<and> int (length c) \<le> 3)) \<and>
   int 1 * (3 - 2) + 3 \<le> int (length ''abcd'') \<and>
   int (length (window ''abcd'' 3 2 1)) = 3 \<and>
   int (length ''abcd'') < int 2 * (3 - 2) + 3 \<and>
   int (length (window ''abcd'' 3 2 2)) < 3"
  using C10_chunker_terminates[of 2 3 "''abcd''"] by simp

text \<open>
  Against claim C10 as worded (only the final chunk may be shorter than \<open>C\<close>): with chunk
  size 3 and overlap 2 the text \<open>abcd\<close> gives four chunks, and the third, which is not the
  last, has two characters and no whitespace was trimmed from it.
\<close>

theorem C10_only_final_short_counterexample:
  "chunk_text ''abcd'' 3 2 = Some [''abc'', ''bcd'', ''cd'', ''d''] \<and>
   window ''abcd'' 3 2 2 = ''cd'' \<and> length ''cd'' < 3 \<and> (2::nat) < length [''abc'', ''bcd'', ''cd'', ''d''] - 1"
proof -
  have "chunk_text ''abcd'' 3 2 = Some [''abc'', ''bcd'', ''cd'', ''d'']" by code_simp
  moreover have "window ''abcd'' 3 2 2 = ''cd''" by (simp add: window_def py_slice_def)
  ultimately show ?thesis by simp
qed


section \<open>Facts about keyword search\<close>

lemma truncate_with_score: "chunk.truncate (with_score c s) = c"
  by (cases c) (simp add: with_score_def chunk.truncate_def chunk.extend_def)

lemma score_with_score: "relevance_score (with_score c s) = s"
  by (cases c) (simp add: with_score_def chunk.extend_def scored_chunk.fields_def)

lemma content_with_score: "content (with_score c s) = content c"
  by (cases c) (simp add: with_score_def chunk.extend_def scored_chunk.fields_def)

lemma py_slice_0_take: "\<exists>m. py_slice xs 0 k = take m xs"
proof (cases "0 < (if k < 0 then max (k + int (length xs)) 0 else min k (int (length xs)))")
  case True
  then show ?thesis by (auto simp: py_slice_def Let_def)
next
  case False
  then have "py_slice xs 0 k = take 0 xs" by (auto simp: py_slice_def Let_def)
  then show ?thesis by blast
qed

lemma length_py_slice_0: "0 \<le> k \<Longrightarrow> length (py_slice xs 0 k) \<le> nat k"
  by (auto simp: py_slice_def Let_def)

lemma set_py_slice_0: "set (py_slice xs 0 k) \<subseteq> set xs"
proof -
  obtain m where "py_slice xs 0 k = take m xs" using py_slice_0_take by blast
  then show ?thesis by (simp add: set_take_subset)
qed

lemma sorted_sort_reverse: "sorted_wrt (\<lambda>a b. key b \<le> key a) (sort_reverse key xs)"
proof -
  have "sorted (map (\<lambda>x. - key x) (sort_key (\<lambda>x. - key x) xs))" by (rule sorted_sort_key)
  then show ?thesis by (simp add: sort_reverse_def sorted_wrt_map)
qed

lemma filter_sort_reverse:
  "filter (\<lambda>x. key x = s) (sort_reverse key xs) = filter (\<lambda>x. key x = s) xs"
proof -
  have "filter (\<lambda>x. - key x = - s) (sort_key (\<lambda>x. - key x) xs) = filter (\<lambda>x. - key x = - s) xs"
    by (rule sort_key_stable)
  then show ?thesis by (simp add: sort_reverse_def)
qed

lemma set_sort_reverse: "set (sort_reverse key xs) = set xs"
  by (simp add: sort_reverse_def)

lemma collect_filter:
  "filter (\<lambda>r. relevance_score r = s) (collect ql chunks) =
   map (\<lambda>c. with_score c s)
     (filter (\<lambda>c. 0 < score_chunk ql (lower (content c)) \<and> score_chunk ql (lower (content c)) = s) chunks)"
  by (induction chunks) (auto simp: Let_def score_with_score)

lemma collect_set:
  "r \<in> set (collect ql chunks) \<Longrightarrow>
     \<exists>c \<in> set chunks. r = with_score c (score_chunk ql (lower (content c))) \<and>
        0 < score_chunk ql (lower (content c))"
  by (induction chunks) (auto simp: Let_def split: if_splits)

lemma fold_score_none:
  "\<forall>w \<in> set ws. \<not> str_in w cl \<Longrightarrow>
     fold (\<lambda>word score. if str_in word cl then score + int (str_count word cl) else score) ws acc = acc"
  by (induction ws arbitrary: acc) auto

lemma score_pos_term:
  "0 < score_chunk ql cl \<Longrightarrow> \<exists>w \<in> set (py_split ql). str_in w cl"
  unfolding score_chunk_def using fold_score_none[of "py_split ql" cl 0] by fastforce


lemma content_truncate: "content (chunk.truncate r) = content r"
  by (simp add: chunk.truncate_def)

lemma search_documents_take:
  "\<exists>m. search_documents chunks q k =
        take m (sort_reverse relevance_score (collect (lower q) chunks))"
  unfolding search_documents_def Let_def by (rule py_slice_0_take)

lemma search_documents_member:
  assumes "r \<in> set (search_documents chunks q k)"
  shows "\<exists>c \<in> set chunks. r = with_score c (score_chunk (lower q) (lower (content c))) \<and>
           0 < score_chunk (lower q) (lower (content c))"
proof -
  have "set (search_documents chunks q k) \<subseteq> set (collect (lower q) chunks)"
    unfolding search_documents_def Let_def
    using set_py_slice_0[of "sort_reverse relevance_score (collect (lower q) chunks)" k]
    by (simp add: set_sort_reverse)
  then have "r \<in> set (collect (lower q) chunks)" using assms by blast
  then show ?thesis by (rule collect_set)
qed

section \<open>Claims about keyword search\<close>

text \<open>
  Claim C6. The list returned by \<open>search_documents\<close> is sorted by descending relevance
  score, and ties are broken by insertion order: for every score \<open>s\<close>, the results with
  score \<open>s\<close>, in the order of the result list, are the first chunks of the store that have
  score \<open>s\<close>, in the order of the store. The result is a function of the query, the store
  and \<open>top_k\<close> alone, so identical inputs give identical ranked orders.
\<close>

theorem C6_search_sorted_stable:
  "sorted_wrt (\<lambda>a b. relevance_score b \<le> relevance_score a) (search_documents chunks q k) \<and>
   prefix (map chunk.truncate (filter (\<lambda>r. relevance_score r = s) (search_documents chunks q k)))
          (filter (\<lambda>c. 0 < score_chunk (lower q) (lower (content c)) \<and>
                        score_chunk (lower q) (lower (content c)) = s) chunks)"
proof -
  define sorted_results where
    "sorted_results = sort_reverse relevance_score (collect (lower q) chunks)"
  obtain m where m: "search_documents chunks q k = take m sorted_results"
    unfolding sorted_results_def using search_documents_take by blast
  have "sorted_wrt (\<lambda>a b. relevance_score b \<le> relevance_score a) sorted_results"
    unfolding sorted_results_def by (rule sorted_sort_reverse)
  then have 1: "sorted_wrt (\<lambda>a b. relevance_score b \<le> relevance_score a) (take m sorted_results)"
    by (rule sorted_wrt_take)
  have "prefix (take m sorted_results) sorted_results" by (rule take_is_prefix)
  then have "prefix (filter (\<lambda>r. relevance_score r = s) (take m sorted_results))
                    (filter (\<lambda>r. relevance_score r = s) sorted_results)"
    by (rule filter_mono_prefix)
  then have "prefix (map chunk.truncate (filter (\<lambda>r. relevance_score r = s) (take m sorted_results)))
                    (map chunk.truncate (filter (\<lambda>r. relevance_score r = s) sorted_results))"
    by (rule map_mono_prefix)
  moreover have "map chunk.truncate (filter (\<lambda>r. relevance_score r = s) sorted_results) =
                 filter (\<lambda>c. 0 < score_chunk (lower q) (lower (content c)) \<and>
                              score_chunk (lower q) (lower (content c)) = s) chunks"
    unfolding sorted_results_def filter_sort_reverse collect_filter
    by (simp add: comp_def truncate_with_score)
  ultimately show ?thesis using 1 by (simp add: m)
qed

theorem C6_search_sorted_stable_witness:
  "sorted_wrt (\<lambda>a b. relevance_score b \<le> relevance_score a)
     (search_documents example_chunks ''Fire corridor'' 5) \<and>
   prefix (map chunk.truncate (filter (\<lambda>r. relevance_score r = 2)
             (search_documents example_chunks ''Fire corridor'' 5)))
          (filter (\<lambda>c. 0 < score_chunk (lower ''Fire corridor'') (lower (content c)) \<and>
                        score_chunk (lower ''Fire corridor'') (lower (content c)) = 2) example_chunks)"
  by (rule C6_search_sorted_stable)

text \<open>
  Claim C7. For \<open>top_k \<ge> 0\<close> the result has at most \<open>top_k\<close> entries; every entry has a
  strictly positive relevance score, which is the score of its content for the query, and
  at least one term of the lower-cased query occurs in its lower-cased content; a chunk
  of the store in which no query term occurs is not among the results.
\<close>

theorem C7_search_positive_bounded:
  "0 \<le> top_k \<Longrightarrow>
     length (search_documents chunks q top_k) \<le> nat top_k \<and>
     (\<forall>r \<in> set (search_documents chunks q top_k).
        0 < relevance_score r \<and>
        relevance_score r = score_chunk (lower q) (lower (content r)) \<and>
        (\<exists>w \<in> set (py_split (lower q)). str_in w (lower (content r)))) \<and>
     (\<forall>c \<in> set chunks.
        (\<forall>w \<in> set (py_split (lower q)). \<not> str_in w (lower (content c))) \<longrightarrow>
        c \<notin> chunk.truncate ` set (search_documents chunks q top_k))"
proof -
  assume k: "0 \<le> top_k"
  have 1: "length (search_documents chunks q top_k) \<le> nat top_k"
    unfolding search_documents_def Let_def using k by (rule length_py_slice_0)
  have 2: "0 < relevance_score r \<and>
           relevance_score r = score_chunk (lower q) (lower (content r)) \<and>
           (\<exists>w \<in> set (py_split (lower q)). str_in w (lower (content r)))"
    if rin: "r \<in> set (search_documents chunks q top_k)" for r
  proof -
    obtain c where r: "r = with_score c (score_chunk (lower q) (lower (content c)))"
      and p: "0 < score_chunk (lower q) (lower (content c))"
      using search_documents_member[OF rin] by blast
    have "\<exists>w \<in> set (py_split (lower q)). str_in w (lower (content c))"
      using p by (rule score_pos_term)
    then show ?thesis using p by (simp add: r score_with_score content_with_score)
  qed
  have 3: "c \<notin> chunk.truncate ` set (search_documents chunks q top_k)"
    if "\<forall>w \<in> set (py_split (lower q)). \<not> str_in w (lower (content c))" for c
  proof
    assume "c \<in> chunk.truncate ` set (search_documents chunks q top_k)"
    then obtain r where "r \<in> set (search_documents chunks q top_k)" and "c = chunk.truncate r"
      by blast
    then have "\<exists>w \<in> set (py_split (lower q)). str_in w (lower (content c))"
      using 2[of r] by (simp add: content_truncate)
    then show False using that by blast
  qed
  from 1 2 3 show ?thesis by blast
qed

theorem C7_search_positive_bounded_witness:
  "(0::int) \<le> 2 \<and>
   length (search_documents example_chunks ''Fire corridor'' 2) \<le> nat 2 \<and>
   0 < relevance_score (hd (search_documents example_chunks ''Fire corridor'' 2)) \<and>
   example_chunks ! 2 \<notin> chunk.truncate ` set (search_documents example_chunks ''Fire corridor'' 2)"
proof -
  have h: "(0::int) \<le> 2" by simp
  note t = C7_search_positive_bounded[OF h, of example_chunks "''Fire corridor''"]
  have "search_documents example_chunks ''Fire corridor'' 2 \<noteq> []" by code_simp
  then have ne: "hd (search_documents example_chunks ''Fire corridor'' 2)
                   \<in> set (search_documents example_chunks ''Fire corridor'' 2)"
    by (rule hd_in_set)
  have c: "example_chunks ! 2 \<in> set example_chunks" by (simp add: example_chunks_def)
  have nt: "\<forall>w \<in> set (py_split (lower ''Fire corridor'')).
              \<not> str_in w (lower (content (example_chunks ! 2)))"
    by code_simp
  from t ne c nt h show ?thesis by blast
qed


section \<open>Facts about the fingerprint\<close>

lemma length_hexdigest: "length (hexdigest ds) = 2 * length ds"
  by (induction ds) (simp_all add: hexdigest_def)

lemma length_md5_digest: "length (md5_digest msg) = 16"
proof -
  obtain a b c d where e:
    "fold md5_block (chop64 (md5_pad msg)) (0x67452301, 0xefcdab89, 0x98badcfe, 0x10325476) =
       (a, b, c, d)"
    by (rule prod_cases4)
  show ?thesis unfolding md5_digest_def e by (simp add: le_bytes_def)
qed

lemma length_md5_hexdigest: "length (md5_hexdigest msg) = 32"
  by (simp add: md5_hexdigest_def length_hexdigest length_md5_digest)

lemma lower_char_isspace: "isspace c \<Longrightarrow> lower_char c = c"
proof -
  assume a: "isspace c"
  define n where "n = (of_char c :: nat)"
  from a have "(9 \<le> n \<and> n \<le> 13) \<or> (28 \<le> n \<and> n \<le> 32) \<or> n = 133 \<or> n = 160"
    by (simp add: isspace_def n_def Let_def)
  then have "\<not> ((65 \<le> n \<and> n \<le> 90) \<or> (192 \<le> n \<and> n \<le> 222 \<and> n \<noteq> 215))" by arith
  then show ?thesis unfolding lower_char_def Let_def n_def[symmetric] by (rule if_not_P)
qed

lemma lower_ws: "\<forall>c \<in> set ws. isspace c \<Longrightarrow> lower ws = ws"
  by (induction ws) (simp_all add: lower_def lower_char_isspace)

lemma lower_append: "lower (xs @ ys) = lower xs @ lower ys"
  by (simp add: lower_def)

lemma strip_ws_left: "\<forall>c \<in> set ws. isspace c \<Longrightarrow> strip (ws @ s) = strip s"
proof -
  assume "\<forall>c \<in> set ws. isspace c"
  then have "dropWhile isspace (ws @ s) = dropWhile isspace s"
    by (intro dropWhile_append2) simp
  then show ?thesis by (simp only: strip_def)
qed

lemma strip_ws_right:
  assumes "\<forall>c \<in> set ws. isspace c"
  shows "strip (s @ ws) = strip s"
proof (cases "\<forall>c \<in> set s. isspace c")
  case True
  have "\<forall>c \<in> set (s @ ws). isspace c" using True assms by auto
  then have a: "dropWhile isspace (s @ ws) = []" by (simp only: dropWhile_eq_Nil_conv)
  have b: "dropWhile isspace s = []" using True by (simp only: dropWhile_eq_Nil_conv)
  show ?thesis by (simp only: strip_def a b)
next
  case False
  then obtain x where x: "x \<in> set s" "\<not> isspace x" by blast
  have 1: "dropWhile isspace (s @ ws) = dropWhile isspace s @ ws"
    using x by (rule dropWhile_append1)
  have "\<And>c. c \<in> set (rev ws) \<Longrightarrow> isspace c" using assms by simp
  then have 2: "dropWhile isspace (rev ws @ rev (dropWhile isspace s)) =
                 dropWhile isspace (rev (dropWhile isspace s))"
    by (rule dropWhile_append2)
  show ?thesis by (simp only: strip_def 1 rev_append 2)
qed

lemma filter_key_none: "fst k \<notin> fst ` set xs \<Longrightarrow> filter (\<lambda>x. fst k = fst x) xs = []"
  by (induction xs) auto

lemma filter_key_singleton:
  "distinct (map fst xs) \<Longrightarrow> k \<in> set xs \<Longrightarrow> filter (\<lambda>x. fst k = fst x) xs = [k]"
proof (induction xs)
  case Nil
  then show ?case by simp
next
  case (Cons a xs)
  have na: "fst a \<notin> fst ` set xs" using Cons.prems(1) by simp
  have dx: "distinct (map fst xs)" using Cons.prems(1) by simp
  show ?case
  proof (cases "k = a")
    case True
    show ?thesis unfolding True using filter_key_none[OF na] by simp
  next
    case False
    then have k: "k \<in> set xs" using Cons.prems(2) by simp
    then have ki: "fst k \<in> fst ` set xs" by (rule imageI)
    have ne: "fst k \<noteq> fst a"
    proof
      assume "fst k = fst a"
      then have "fst a \<in> fst ` set xs" using ki by (simp only:)
      then show False using na by (rule rev_notE)
    qed
    have "filter (\<lambda>x. fst k = fst x) xs = [k]" using dx k by (rule Cons.IH)
    then show ?thesis using ne by simp
  qed
qed

lemma sort_key_fst_perm:
  assumes "distinct (map fst xs)" and "mset ys = mset xs"
  shows "sort_key fst ys = sort_key fst xs"
proof -
  have "mset (map fst ys) = mset (map fst xs)" using assms(2) by simp
  then have "distinct (map fst ys) = distinct (map fst xs)" by (rule mset_eq_imp_distinct_iff)
  then have d: "distinct (map fst ys)" using assms(1) by simp
  have sx: "set ys = set xs" using assms(2) by (rule mset_eq_setD)
  show ?thesis
  proof (rule properties_for_sort_key)
    show "mset (sort_key fst xs) = mset ys" using assms(2) by simp
    show "sorted (map fst (sort_key fst xs))" by (rule sorted_sort_key)
    fix k assume "k \<in> set (sort_key fst xs)"
    then have kx: "k \<in> set xs" by simp
    then have ky: "k \<in> set ys" using sx by simp
    have "filter (\<lambda>x. fst x = fst k) (sort_key fst xs) = filter (\<lambda>x. fst x = fst k) xs"
      by (rule sort_key_stable)
    then have "filter (\<lambda>x. fst k = fst x) (sort_key fst xs) = filter (\<lambda>x. fst k = fst x) xs"
      by (simp only: eq_commute[of "fst k"])
    also have "\<dots> = [k]" using assms(1) kx by (rule filter_key_singleton)
    also have "[k] = filter (\<lambda>x. fst k = fst x) ys"
      by (rule filter_key_singleton[OF d ky, symmetric])
    finally show "filter (\<lambda>x. fst k = fst x) (sort_key fst xs) = filter (\<lambda>x. fst k = fst x) ys" .
  qed
qed

lemma json_dumps_perm:
  assumes "distinct (map fst f)" and "mset f' = mset f"
  shows "json_dumps (JDict f') = json_dumps (JDict f)"
proof -
  define g where "g = (\<lambda>kv :: string \<times> json. (fst kv, json_dumps (snd kv)))"
  have e: "map fst (map g f) = map fst f" by (induction f) (simp_all add: g_def)
  have 1: "distinct (map fst (map g f))" unfolding e by (rule assms(1))
  have 2: "mset (map g f') = mset (map g f)" using assms(2) by simp
  have "sort_key fst (map g f') = sort_key fst (map g f)" using 1 2 by (rule sort_key_fst_perm)
  then have "dumps_items (map g f') = dumps_items (map g f)" by (simp only: dumps_items_def)
  then show ?thesis by (simp only: json_dumps.simps g_def)
qed

lemma strip_lower_ws:
  assumes "list_all isspace ws1" and "list_all isspace ws2"
  shows "strip (lower (ws1 @ q @ ws2)) = strip (lower q)"
proof -
  have 1: "\<forall>c \<in> set ws1. isspace c" using assms(1) by (simp add: list_all_iff)
  have 2: "\<forall>c \<in> set ws2. isspace c" using assms(2) by (simp add: list_all_iff)
  have "lower (ws1 @ q @ ws2) = ws1 @ lower q @ ws2"
    by (simp only: lower_append lower_ws[OF 1] lower_ws[OF 2])
  then show ?thesis by (simp only: strip_ws_left[OF 1] append_assoc[symmetric] strip_ws_right[OF 2])
qed

section \<open>Claims about the query cache\<close>

lemma insort_key_fst_map:
  assumes "\<And>y. fst (g y) = fst y"
  shows "insort_key fst (g x) (map g xs) = map g (insort_key fst x xs)"
  by (induction xs) (simp_all add: assms)

lemma sort_key_fst_map:
  assumes "\<And>y. fst (g y) = fst y"
  shows "sort_key fst (map g xs) = map g (sort_key fst xs)"
  by (induction xs) (simp_all add: insort_key_fst_map[OF assms])

lemma json_dumps_dict_canonical: "json_dumps (JDict f) = spec_canonical_filters f"
proof -
  define g where "g = (\<lambda>kv :: string \<times> json. (fst kv, json_dumps (snd kv)))"
  have "sort_key fst (map g f) = map g (sort_key fst f)"
    by (rule sort_key_fst_map) (simp add: g_def)
  then have "dumps_items (map g f) =
      join '', '' (map (\<lambda>kv. encode_basestring_ascii (fst kv) @ '': '' @ json_dumps (snd kv))
                        (sort_key fst f))"
    by (simp add: dumps_items_def g_def comp_def)
  then show ?thesis by (simp add: spec_canonical_filters_def g_def)
qed

lemma get_query_hash_spec: "get_query_hash q filters = spec_fingerprint q filters"
proof (cases filters)
  case None
  then show ?thesis by (simp add: get_query_hash_def spec_fingerprint_def)
next
  case (Some f)
  then show ?thesis
    unfolding get_query_hash_def spec_fingerprint_def Let_def json_dumps_dict_canonical
    by simp
qed


text \<open>
  Claim C9. \<open>get_query_hash\<close> computes the fingerprint that the specification words:
  the MD5 hex digest of the lower-cased and stripped query followed, when there are
  filters, by their items in the order of their keys, written as a JSON object
  (\<open>json.dumps(filters, sort_keys=True)\<close>). Two queries that differ only in letter case
  and in leading or trailing whitespace, with filter dicts that hold the same items in a
  different order, have the same fingerprint, with or without filters; every fingerprint
  is 32 characters long.
\<close>

theorem C9_fingerprint:
  "list_all isspace ws1 \<Longrightarrow> list_all isspace ws2 \<Longrightarrow> lower q = lower q' \<Longrightarrow>
   distinct (map fst f) \<Longrightarrow> mset f' = mset f \<Longrightarrow>
     get_query_hash q0 filters0 = spec_fingerprint q0 filters0 \<and>
     get_query_hash (ws1 @ q @ ws2) (Some f') = get_query_hash q' (Some f) \<and>
     get_query_hash (ws1 @ q @ ws2) None = get_query_hash q' None \<and>
     length (get_query_hash q0 filters0) = 32"
proof -
  assume w1: "list_all isspace ws1" and w2: "list_all isspace ws2" and l: "lower q = lower q'"
    and d: "distinct (map fst f)" and m: "mset f' = mset f"
  have k: "strip (lower (ws1 @ q @ ws2)) = strip (lower q')"
    using strip_lower_ws[OF w1 w2, of q] l by simp
  have j: "json_dumps (JDict f') = json_dumps (JDict f)" using d m by (rule json_dumps_perm)
  have e: "(f' = []) = (f = [])" using m by (metis mset_zero_iff)
  have 0: "get_query_hash q0 filters0 = spec_fingerprint q0 filters0"
    by (rule get_query_hash_spec)
  have 1: "get_query_hash (ws1 @ q @ ws2) (Some f') = get_query_hash q' (Some f)"
    unfolding get_query_hash_def Let_def k option.case e j by (rule refl)
  have 2: "get_query_hash (ws1 @ q @ ws2) None = get_query_hash q' None"
    unfolding get_query_hash_def Let_def k option.case by (rule refl)
  have 3: "length (get_query_hash q0 filters0) = 32"
    unfolding get_query_hash_def Let_def by (rule length_md5_hexdigest)
  from 0 1 2 3 show ?thesis by blast
qed

text \<open>
  The fingerprints of \<open>fire rating\<close>, without filters and with the filters
  \<open>{"b": 1, "a": 2}\<close>, are the digests that \<open>hashlib.md5\<close> gives for \<open>fire rating\<close> and
  for \<open>fire rating{"a": 2, "b": 1}\<close>; they differ, so the filters enter the fingerprint.
\<close>

theorem C9_fingerprint_witness:
  "list_all isspace ''  '' \<and> list_all isspace '' '' \<and>
   lower ''Fire Rating'' = lower ''fire rating'' \<and>
   distinct (map fst [(''b'', JInt 1), (''a'', JInt 2)]) \<and>
   mset [(''a'', JInt 2), (''b'', JInt 1)] = mset [(''b'', JInt 1), (''a'', JInt 2)] \<and>
   get_query_hash ''What is the Fire Rating?'' (Some [(''b'', JInt 1), (''a'', JInt 2)]) =
     spec_fingerprint ''What is the Fire Rating?'' (Some [(''b'', JInt 1), (''a'', JInt 2)]) \<and>
   get_query_hash (''  '' @ ''Fire Rating'' @ '' '') (Some [(''a'', JInt 2), (''b'', JInt 1)]) =
     get_query_hash ''fire rating'' (Some [(''b'', JInt 1), (''a'', JInt 2)]) \<and>
   get_query_hash (''  '' @ ''Fire Rating'' @ '' '') None = get_query_hash ''fire rating'' None \<and>
   length (get_query_hash ''What is the Fire Rating?'' (Some [(''b'', JInt 1), (''a'', JInt 2)])) = 32 \<and>
   get_query_hash ''fire rating'' None = ''ebb396c99841784e854a81428a2a1d25'' \<and>
   get_query_hash ''fire rating'' (Some [(''b'', JInt 1), (''a'', JInt 2)]) =
     ''cf1fdf00f55b5ce15998a706147cb582'' \<and>
   get_query_hash ''fire rating'' (Some [(''b'', JInt 1), (''a'', JInt 2)]) \<noteq>
     get_query_hash ''fire rating'' None"
proof -
  have h1: "list_all isspace ''  ''" by (simp add: isspace_def)
  have h2: "list_all isspace '' ''" by (simp add: isspace_def)
  have h3: "lower ''Fire Rating'' = lower ''fire rating''" by code_simp
  have h4: "distinct (map fst [(''b'', JInt 1), (''a'', JInt 2)])" by simp
  have h5: "mset [(''a'', JInt 2), (''b'', JInt 1)] = mset [(''b'', JInt 1), (''a'', JInt 2)]"
    by (simp add: add.commute)
  note t = C9_fingerprint[OF h1 h2 h3 h4 h5, of "''What is the Fire Rating?''"
      "Some [(''b'', JInt 1), (''a'', JInt 2)]"]
  have d1: "get_query_hash ''fire rating'' None = ''ebb396c99841784e854a81428a2a1d25''"
    by code_simp
  have d2: "get_query_hash ''fire rating'' (Some [(''b'', JInt 1), (''a'', JInt 2)]) =
     ''cf1fdf00f55b5ce15998a706147cb582''"
    by code_simp
  have d3: "get_query_hash ''fire rating'' (Some [(''b'', JInt 1), (''a'', JInt 2)]) \<noteq>
     get_query_hash ''fire rating'' None"
    unfolding d1 d2 by simp
  from h1 h2 h3 h4 h5 t d1 d2 d3 show ?thesis by blast
qed

lemma chat_cache_other:
  "h \<noteq> get_query_hash (req_message request) (req_filters request) \<Longrightarrow>
     snd (chat now now' outcome request qc) h = qc h"
  by (simp add: chat_def Let_def cache_put_def split: option.splits sum.splits)

lemma chat_cache_keeps:
  "qc h \<noteq> None \<Longrightarrow> snd (chat now now' outcome request qc) h \<noteq> None"
  by (simp add: chat_def Let_def cache_put_def split: option.splits sum.splits)

lemma cache_lookup_iff:
  "(cache_lookup now qc h = Some e) =
     (qc h = Some e \<and>
      (\<exists>t. c_timestamp e = Some t \<and> total_seconds (now - t) < real_of_int CACHE_TTL_SECONDS))"
  by (auto simp: cache_lookup_def is_cache_valid_def Let_def split: option.splits)

text \<open>
  Claim C3. The lookup at the head of \<open>chat\<close> hits exactly when the fingerprint has an
  entry and \<open>now - created_at < CACHE_TTL_SECONDS\<close>, which is 3600 seconds. An entry that
  is read at the time it was put is returned. An entry whose age has reached the TTL is a
  miss, and no request removes it: after any \<open>chat\<close> request the fingerprint is still in the
  cache, and it still holds the expired entry when the request has another fingerprint
  (a request with the same fingerprint that succeeds overwrites it). After \<open>clear_cache\<close>
  every lookup misses.
\<close>

theorem C3_cache_lookup:
  "(cache_lookup now qc h = Some e \<longleftrightarrow>
      qc h = Some e \<and>
      (\<exists>t. c_timestamp e = Some t \<and> total_seconds (now - t) < real_of_int CACHE_TTL_SECONDS)) \<and>
   CACHE_TTL_SECONDS = 3600 \<and>
   cache_lookup t (cache_put qc h r t) h = Some (cache_entry_of r t) \<and>
   (qc h = Some e \<and> c_timestamp e = Some t0 \<and>
    real_of_int CACHE_TTL_SECONDS \<le> total_seconds (now - t0) \<longrightarrow>
      cache_lookup now qc h = None \<and>
      snd (chat now now' outcome request qc) h \<noteq> None \<and>
      (h \<noteq> get_query_hash (req_message request) (req_filters request) \<longrightarrow>
         snd (chat now now' outcome request qc) h = Some e)) \<and>
   cache_lookup now (clear_cache qc) h = None"
proof -
  have 1: "cache_lookup now qc h = Some e \<longleftrightarrow>
      qc h = Some e \<and>
      (\<exists>t. c_timestamp e = Some t \<and> total_seconds (now - t) < real_of_int CACHE_TTL_SECONDS)"
    by (rule cache_lookup_iff)
  have 2: "CACHE_TTL_SECONDS = 3600" by (simp add: CACHE_TTL_SECONDS_def)
  have 3: "cache_lookup t (cache_put qc h r t) h = Some (cache_entry_of r t)"
    by (simp add: cache_lookup_def cache_put_def cache_entry_of_def is_cache_valid_def
        total_seconds_def CACHE_TTL_SECONDS_def)
  have 4: "cache_lookup now qc h = None \<and>
      snd (chat now now' outcome request qc) h \<noteq> None \<and>
      (h \<noteq> get_query_hash (req_message request) (req_filters request) \<longrightarrow>
         snd (chat now now' outcome request qc) h = Some e)"
    if a: "qc h = Some e" and b: "c_timestamp e = Some t0"
      and c: "real_of_int CACHE_TTL_SECONDS \<le> total_seconds (now - t0)"
  proof -
    have "cache_lookup now qc h = None"
      using a b c by (simp add: cache_lookup_def is_cache_valid_def Let_def)
    moreover have "snd (chat now now' outcome request qc) h \<noteq> None"
      using a by (intro chat_cache_keeps) simp
    moreover have "h \<noteq> get_query_hash (req_message request) (req_filters request) \<longrightarrow>
         snd (chat now now' outcome request qc) h = Some e"
      using a by (simp add: chat_cache_other)
    ultimately show ?thesis by blast
  qed
  have 5: "cache_lookup now (clear_cache qc) h = None"
    by (simp add: cache_lookup_def clear_cache_def)
  from 1 2 3 4 5 show ?thesis by blast
qed

theorem C3_cache_lookup_witness:
  "cache_lookup 3599999999 example_cache ''k'' = Some example_entry \<and>
   CACHE_TTL_SECONDS = 3600 \<and>
   cache_lookup 7 (cache_put example_cache ''q''
      \<lparr>r_answer = Some ''yes'', r_sources = Some [], r_confidence = None,
        r_structured_data = None, r_conversation_id = None\<rparr> 7) ''q'' =
     Some (cache_entry_of \<lparr>r_answer = Some ''yes'', r_sources = Some [], r_confidence = None,
        r_structured_data = None, r_conversation_id = None\<rparr> 7) \<and>
   example_cache ''k'' = Some example_entry \<and> c_timestamp example_entry = Some 0 \<and>
   real_of_int CACHE_TTL_SECONDS \<le> total_seconds (3600000000 - 0) \<and>
   cache_lookup 3600000000 example_cache ''k'' = None \<and>
   snd (chat 3600000000 3600000001 (Inl ''timeout'') example_request example_cache) ''k'' =
     Some example_entry \<and>
   cache_lookup 3600000000 (clear_cache example_cache) ''k'' = None"
proof -
  have a: "example_cache ''k'' = Some example_entry" by (simp add: example_cache_def)
  have b: "c_timestamp example_entry = Some 0" by (simp add: example_entry_def)
  have c: "real_of_int CACHE_TTL_SECONDS \<le> total_seconds (3600000000 - 0)"
    by (simp add: CACHE_TTL_SECONDS_def total_seconds_def)
  have v: "total_seconds (3599999999 - 0) < real_of_int CACHE_TTL_SECONDS"
    by (simp add: CACHE_TTL_SECONDS_def total_seconds_def)
  have n: "''k'' \<noteq> get_query_hash (req_message example_request) (req_filters example_request)"
  proof
    assume "''k'' = get_query_hash (req_message example_request) (req_filters example_request)"
    then have "length ''k'' = length (get_query_hash (req_message example_request) (req_filters example_request))"
      by (rule arg_cong)
    then show False unfolding get_query_hash_def Let_def length_md5_hexdigest by simp
  qed
  note t1 = C3_cache_lookup[of 3599999999 example_cache "''k''" example_entry]
  note t2 = C3_cache_lookup[of 3600000000 example_cache "''k''" example_entry 7 _ 0
      3600000001 "Inl ''timeout''" example_request]
  note t3 = C3_cache_lookup[of _ example_cache "''q''" _ 7
      "\<lparr>r_answer = Some ''yes'', r_sources = Some [], r_confidence = None,
        r_structured_data = None, r_conversation_id = None\<rparr>"]
  have 1: "cache_lookup 3599999999 example_cache ''k'' = Some example_entry"
    using t1 a b v by blast
  from 1 t2 t3 a b c n show ?thesis by blast
qed

section \<open>Claims about the pipeline and about ingestion\<close>

lemma example_query_not_extraction: "\<not> is_extraction_request ''What is the fire rating?''"
  by code_simp













text \<open>
  Claim C5 on the code: a query with a conversation id that the pipeline has not seen, on a
  store where the search finds a chunk, ends in \<open>KeyError\<close>, because the turns are appended
  with \<open>self.conversations[conversation_id].append\<close> and only a generated id is
  initialised. Without an id the same query appends the user and the assistant turn under
  the fresh id.
\<close>

theorem C5_unseen_conversation_id_raises:
  "fst (process_query example_env ''What is the fire rating?'' (Some ''conv-1'') Map.empty) =
     Inl (KeyError ''conv-1'') \<and>
   snd (process_query example_env ''What is the fire rating?'' None Map.empty)
       (env_uuid4 example_env) =
     Some [(''user'', ''What is the fire rating?''), (''assistant'', ''1 HR'')]"
proof -
  have s: "env_search example_env ''What is the fire rating?'' 5 \<noteq> []"
    by (simp add: example_env_def)
  have g: "env_generate_answer example_env q c h = ''1 HR''" for q c h
    by (simp add: example_env_def)
  have 1: "fst (process_query example_env ''What is the fire rating?'' (Some ''conv-1'') Map.empty) =
     Inl (KeyError ''conv-1'')"
    using s example_query_not_extraction by (simp add: process_query_def Let_def)
  have 2: "snd (process_query example_env ''What is the fire rating?'' None Map.empty)
       (env_uuid4 example_env) =
     Some [(''user'', ''What is the fire rating?''), (''assistant'', ''1 HR'')]"
    using s example_query_not_extraction by (simp add: process_query_def Let_def g)
  from 1 2 show ?thesis by blast
qed

lemma example_page_chunks: "page_chunks ''Fire rating: 1 HR'' = Some [''Fire rating: 1 HR'']"
  by code_simp

lemma str_of_nat_0: "str_of_nat 0 = ''0''" by code_simp
lemma str_of_nat_1: "str_of_nat 1 = ''1''" by code_simp

lemma example_extract:
  "extract_and_chunk_pdf example_reader bs doc_id ''a.pdf'' =
     Some [\<lparr>chunk_id = doc_id @ ''_page1_chunk0'', document_id = doc_id, filename = ''a.pdf'',
            page_number = 1, chunk_index = 0, content = ''Fire rating: 1 HR''\<rparr>]"
  by (simp add: extract_and_chunk_pdf_def example_reader_def example_page_chunks make_chunk_def
      str_of_nat_0 str_of_nat_1[simplified])

text \<open>
  Claim C1 on the code: ingesting the file \<open>a.pdf\<close> twice returns the same result and the
  same chunk id both times and leaves \<open>documents\<close> and \<open>documents_metadata\<close> as they were
  after the first ingestion, but \<open>self.chunks.extend(text_chunks)\<close> appends the chunk again:
  the chunk list has one record after the first ingestion and two records with the same
  id after the second.
\<close>

theorem C1_reingest_appends_chunks:
  "\<exists>r s1 s2.
     process_document example_reader example_file empty_processor = Some (r, s1) \<and>
     process_document example_reader example_file s1 = Some (r, s2) \<and>
     map chunk_id (p_chunks s1) = [md5_hexdigest (encode ''a.pdf'') @ ''_page1_chunk0''] \<and>
     map chunk_id (p_chunks s2) =
       [md5_hexdigest (encode ''a.pdf'') @ ''_page1_chunk0'',
        md5_hexdigest (encode ''a.pdf'') @ ''_page1_chunk0''] \<and>
     length (p_chunks s1) = 1 \<and> length (p_chunks s2) = 2 \<and>
     p_documents s2 = p_documents s1 \<and> p_documents_metadata s2 = p_documents_metadata s1"
  by (simp add: process_document_def Let_def example_file_def example_extract empty_processor_def)

section \<open>Claims about structured extraction\<close>







end
